theory Spec2Isabelle
  imports Main "HOL-Library.Multiset" "HOL-Library.Char_ord" "HOL-Library.List_Lexorder"
begin

section \<open>textshell: the pipeline language of \<^verbatim>\<open>src/pipes.ts\<close>\<close>

text \<open>
  The extension reads a pipeline text such as \<^verbatim>\<open>sort desc | uniq\<close>, resolves every
  stage through the table \<^verbatim>\<open>PIPES\<close> and applies the composed function to the selected
  lines. This theory embeds that core: the string primitives the parser calls, the three
  factories, the table lookup, \<^verbatim>\<open>parsePipe\<close> and \<^verbatim>\<open>parsePipeline\<close>.

  Conventions of the embedding:
  \<^item> a JavaScript string is a \<^typ>\<open>string\<close>; a \<^typ>\<open>char\<close> stands for one code unit in
    the range U+0000 .. U+00FF;
  \<^item> a \<^verbatim>\<open>throw\<close> is the left injection of a sum, so \<^verbatim>\<open>[null, err]\<close> is \<open>Inl err\<close> and
    \<^verbatim>\<open>[pipe, null]\<close> is \<open>Inr pipe\<close>;
  \<^item> the request to show the help document is an \<open>effect\<close> collected beside the
    returned lines;
  \<^item> \<^verbatim>\<open>collator.compare\<close> belongs to the platform (\<^verbatim>\<open>Intl.Collator\<close>), so every
    definition that reaches it takes the comparison function as its first argument.
\<close>

subsection \<open>Values\<close>

type_synonym lines = "string list"

type_synonym compare = "string \<Rightarrow> string \<Rightarrow> int"

text \<open>
  \<^verbatim>\<open>new Error(msg)\<close> carries its message. A \<^verbatim>\<open>TypeError\<close> is raised by the engine
  itself (calling a value that is not a function, or a built-in applied to an undefined
  receiver); its message is engine specific and is not modelled.
\<close>

datatype js_error = Error string | TypeError

datatype effect = ShowHelpDocument

text \<open>What a call of a pipe gives: the returned lines or the exception, and the effects.\<close>

type_synonym outcome = "(js_error + lines) \<times> effect list"

text \<open>
  The values that can end up in the array \<^verbatim>\<open>pipes\<close>. The declared type is a function on
  lines; at run time a factory found through the prototype chain can also hand back an
  array or a string.
\<close>

datatype js_value = FunctionVal "lines \<Rightarrow> outcome" | ArrayVal "string list" | StringVal string

text \<open>The result of the property read \<^verbatim>\<open>PIPES[pipeName]\<close>.\<close>

datatype property_value =
    Undefined
  | Callable "string list \<Rightarrow> js_error + js_value"
  | NonCallable

subsection \<open>String primitives\<close>

text \<open>
  White space and line terminators of ECMAScript below U+0100: TAB, LF, VT, FF, CR,
  SPACE and NO-BREAK SPACE. Both \<^verbatim>\<open>trim()\<close> and the regular expression class
  \<^verbatim>\<open>\s\<close> use this set.
\<close>

definition is_white_space :: "char \<Rightarrow> bool" where
  "is_white_space c \<longleftrightarrow>
     c \<in> set [CHR 0x09, CHR 0x0A, CHR 0x0B, CHR 0x0C, CHR 0x0D, CHR 0x20, CHR 0xA0]"

definition trim :: "string \<Rightarrow> string" where
  "trim s = rev (dropWhile is_white_space (rev (dropWhile is_white_space s)))"

text \<open>
  \<^verbatim>\<open>text.split('|')\<close>: the pieces between the separators. The result is never empty:
  the empty text gives one empty piece.
\<close>

fun split_on :: "char \<Rightarrow> string \<Rightarrow> string list" where
  "split_on sep [] = [[]]"
| "split_on sep (c # cs) =
     (if c = sep then [] # split_on sep cs
      else (case split_on sep cs of
              [] \<Rightarrow> [[c]]
            | t # ts \<Rightarrow> (c # t) # ts))"

text \<open>
  \<^verbatim>\<open>s.split(/\s+/)\<close>: the pieces between maximal runs of white space. A run at the
  start or at the end leaves an empty piece there, and the empty string gives one empty
  piece.
\<close>

function split_ws :: "string \<Rightarrow> string list" where
  "split_ws [] = [[]]"
| "split_ws (c # cs) =
     (if is_white_space c then [] # split_ws (dropWhile is_white_space cs)
      else (case split_ws cs of
              [] \<Rightarrow> [[c]]
            | t # ts \<Rightarrow> (c # t) # ts))"
  by pat_completeness auto
termination
  by (relation "measure length") (auto simp: length_dropWhile_le less_Suc_eq_le)

subsection \<open>Array primitives\<close>

text \<open>
  \<^verbatim>\<open>lines.toSorted(comparator)\<close> is a stable sort: for a consistent comparator the
  result is the one stable arrangement, which insertion from the right computes. The
  element \<open>x\<close> stood before every element of the list it is inserted into, so it stays
  in front of the elements it compares equal to.
\<close>

fun insert_by :: "compare \<Rightarrow> string \<Rightarrow> lines \<Rightarrow> lines" where
  "insert_by comparator x [] = [x]"
| "insert_by comparator x (y # ys) =
     (if comparator x y \<le> 0 then x # y # ys else y # insert_by comparator x ys)"

definition toSorted :: "compare \<Rightarrow> lines \<Rightarrow> lines" where
  "toSorted comparator xs = foldr (insert_by comparator) xs []"

subsection \<open>Ordinary objects used as sets of keys\<close>

text \<open>
  The accumulator of \<^verbatim>\<open>uniq\<close> is an ordinary object whose own properties all hold
  \<^verbatim>\<open>true\<close>, so only its own keys matter: the list of them in creation order.

  The assignment \<^verbatim>\<open>acc[line] = true\<close> creates the own property when it is absent and
  keeps its place when it is present. The key \<^verbatim>\<open>__proto__\<close> is the exception: the
  assignment runs the inherited setter, which ignores a value that is neither an object
  nor null, and no own property appears.
\<close>

type_synonym js_object = "string list"

definition set_property :: "js_object \<Rightarrow> string \<Rightarrow> js_object" where
  "set_property acc key =
     (if key = ''__proto__'' then acc
      else if key \<in> set acc then acc
      else acc @ [key])"

text \<open>
  An array index is the canonical decimal form of an integer from 0 to \<open>2^32 - 2\<close>:
  digits only, no leading zero except for \<^verbatim>\<open>0\<close> itself.
\<close>

definition is_digit :: "char \<Rightarrow> bool" where
  "is_digit c \<longleftrightarrow> (48::nat) \<le> of_char c \<and> of_char c \<le> (57::nat)"

definition decimal_value :: "string \<Rightarrow> nat" where
  "decimal_value s = foldl (\<lambda>n c. 10 * n + (of_char c - 48)) 0 s"

definition is_array_index :: "string \<Rightarrow> bool" where
  "is_array_index s \<longleftrightarrow>
     s \<noteq> [] \<and> list_all is_digit s \<and> (s = ''0'' \<or> hd s \<noteq> CHR ''0'') \<and>
     decimal_value s \<le> 4294967294"

text \<open>
  \<^verbatim>\<open>Object.keys(obj)\<close> lists the own keys: first the array indices in ascending
  numeric order, then the other strings in creation order.
\<close>

definition Object_keys :: "js_object \<Rightarrow> string list" where
  "Object_keys obj =
     sort_key decimal_value (filter is_array_index obj) @
     filter (\<lambda>k. \<not> is_array_index k) obj"

subsection \<open>The factories\<close>

definition NOOP :: "lines \<Rightarrow> outcome" where
  "NOOP lines = (Inr lines, [])"

text \<open>
  \<^verbatim>\<open>sort\<close>: the argument list is matched against \<^verbatim>\<open>[]\<close> and \<^verbatim>\<open>['asc']\<close>, then
  against \<^verbatim>\<open>['-d']\<close> and \<^verbatim>\<open>['desc']\<close>; anything else throws. An array literal
  used as a pattern of \<^verbatim>\<open>match\<close> matches the arrays of the same length whose elements
  match one by one, so each of the four patterns matches one argument list.
\<close>

definition sort_factory :: "compare \<Rightarrow> string list \<Rightarrow> js_error + js_value" where
  "sort_factory collator args =
     (if args = [] \<or> args = [''asc''] then
        Inr (FunctionVal (\<lambda>lines. (Inr (toSorted collator lines), [])))
      else if args = [''-d''] \<or> args = [''desc''] then
        Inr (FunctionVal (\<lambda>lines. (Inr (toSorted (\<lambda>a b. - collator a b) lines), [])))
      else Inl (Error ''Invalid arguments''))"

text \<open>\<^verbatim>\<open>uniq\<close>: the body of the returned function, then the factory.\<close>

definition uniq_lines :: "lines \<Rightarrow> lines" where
  "uniq_lines lines = Object_keys (foldl set_property [] lines)"

definition uniq :: "string list \<Rightarrow> js_error + js_value" where
  "uniq args =
     (if length args > 0 then Inl (Error ''Invalid arguments'')
      else Inr (FunctionVal (\<lambda>lines. (Inr (uniq_lines lines), []))))"

text \<open>
  \<^verbatim>\<open>help\<close> ignores its arguments. The returned function asks the editor to show the
  help document, does not wait for it, and returns its input.
\<close>

definition help_factory :: "string list \<Rightarrow> js_error + js_value" where
  "help_factory args = Inr (FunctionVal (\<lambda>lines. (Inr lines, [ShowHelpDocument])))"

subsection \<open>The table \<^verbatim>\<open>PIPES\<close>\<close>

text \<open>
  \<^verbatim>\<open>PIPES\<close> is an object literal with the own keys \<^verbatim>\<open>help\<close>, \<^verbatim>\<open>sort\<close> and
  \<^verbatim>\<open>uniq\<close>. A property read that misses the own keys continues in
  \<^verbatim>\<open>Object.prototype\<close>, so the names below are found there (ECMA-262, properties of
  the Object prototype object and its additional properties for web browsers). What is
  recorded for each is the result of the call \<^verbatim>\<open>factory(args)\<close>, in which the receiver
  is undefined:
  \<^item> \<^verbatim>\<open>constructor\<close> is \<^verbatim>\<open>Object\<close>, and \<^verbatim>\<open>Object(args)\<close> returns the array \<^verbatim>\<open>args\<close>;
  \<^item> \<^verbatim>\<open>toString\<close> returns the string \<^verbatim>\<open>[object Undefined]\<close>;
  \<^item> the other functions convert the undefined receiver to an object first, which
    throws a \<^verbatim>\<open>TypeError\<close>;
  \<^item> \<^verbatim>\<open>__proto__\<close> is an accessor: the read gives \<^verbatim>\<open>Object.prototype\<close> itself, an
    object that is not callable.
\<close>

definition Object_prototype :: "string \<Rightarrow> property_value" where
  "Object_prototype name =
     (if name = ''constructor'' then Callable (\<lambda>args. Inr (ArrayVal args))
      else if name = ''toString'' then Callable (\<lambda>args. Inr (StringVal ''[object Undefined]''))
      else if name \<in> set [''hasOwnProperty'', ''isPrototypeOf'', ''propertyIsEnumerable'',
                           ''toLocaleString'', ''valueOf'', ''__defineGetter__'',
                           ''__defineSetter__'', ''__lookupGetter__'', ''__lookupSetter__'']
        then Callable (\<lambda>args. Inl TypeError)
      else if name = ''__proto__'' then NonCallable
      else Undefined)"

definition PIPES :: "compare \<Rightarrow> string \<Rightarrow> property_value" where
  "PIPES collator name =
     (if name = ''help'' then Callable help_factory
      else if name = ''sort'' then Callable (sort_factory collator)
      else if name = ''uniq'' then Callable uniq
      else Object_prototype name)"

subsection \<open>Parsing one stage\<close>

text \<open>
  \<^verbatim>\<open>const [pipeName, ...args] = text.trim().split(/\s+/)\<close>. The split never gives an
  empty array; were it empty, \<^verbatim>\<open>pipeName\<close> would be undefined and the lookup would use
  the key \<^verbatim>\<open>undefined\<close>.
\<close>

definition tokens :: "string \<Rightarrow> string list" where
  "tokens text = split_ws (trim text)"

definition pipeName :: "string \<Rightarrow> string" where
  "pipeName text = (case tokens text of [] \<Rightarrow> ''undefined'' | name # args \<Rightarrow> name)"

definition pipeArgs :: "string \<Rightarrow> string list" where
  "pipeArgs text = (case tokens text of [] \<Rightarrow> [] | name # args \<Rightarrow> args)"

text \<open>
  \<^verbatim>\<open>if (!factory) throw ...\<close>: only \<^verbatim>\<open>undefined\<close> is falsy among the values the lookup
  can give. Calling a value that is not a function throws a \<^verbatim>\<open>TypeError\<close>.
\<close>

definition parsePipe :: "compare \<Rightarrow> string \<Rightarrow> js_error + js_value" where
  "parsePipe collator text =
     (case PIPES collator (pipeName text) of
        Undefined \<Rightarrow> Inl (Error (''Unknown command: '' @ pipeName text))
      | NonCallable \<Rightarrow> Inl TypeError
      | Callable factory \<Rightarrow> factory (pipeArgs text))"

subsection \<open>Parsing and running a pipeline\<close>

text \<open>
  \<^verbatim>\<open>.map(parsePipe)\<close> inside \<^verbatim>\<open>try\<close>: the elements are visited from the left and the
  first exception leaves the loop, so the callback is not applied to the rest.
\<close>

fun map_try :: "('a \<Rightarrow> js_error + 'b) \<Rightarrow> 'a list \<Rightarrow> js_error + 'b list" where
  "map_try f [] = Inr []"
| "map_try f (x # xs) =
     (case f x of
        Inl e \<Rightarrow> Inl e
      | Inr y \<Rightarrow> (case map_try f xs of Inl e \<Rightarrow> Inl e | Inr ys \<Rightarrow> Inr (y # ys)))"

text \<open>The call \<^verbatim>\<open>pipe(inp)\<close> of a value taken from \<^verbatim>\<open>pipes\<close>.\<close>

fun call :: "js_value \<Rightarrow> lines \<Rightarrow> outcome" where
  "call (FunctionVal f) inp = f inp"
| "call (ArrayVal a) inp = (Inl TypeError, [])"
| "call (StringVal s) inp = (Inl TypeError, [])"

text \<open>
  \<^verbatim>\<open>pipes.reduce((inp, pipe) => pipe(inp), lines)\<close>: the accumulator starts as
  \<^verbatim>\<open>lines\<close> and each element replaces it by the result of its call; an exception ends
  the loop. The effects requested so far are kept.
\<close>

fun reduce :: "js_value list \<Rightarrow> lines \<Rightarrow> outcome" where
  "reduce [] inp = (Inr inp, [])"
| "reduce (pipe # rest) inp =
     (case call pipe inp of
        (Inl e, fx) \<Rightarrow> (Inl e, fx)
      | (Inr out, fx) \<Rightarrow> (case reduce rest out of (r, fx') \<Rightarrow> (r, fx @ fx')))"

definition stage_texts :: "string \<Rightarrow> string list" where
  "stage_texts text = map trim (split_on CHR ''|'' text)"

text \<open>
  \<^verbatim>\<open>parsePipeline(text, {check})\<close>. Every value thrown inside \<^verbatim>\<open>try\<close> is an
  \<^verbatim>\<open>Error\<close> instance, so \<^verbatim>\<open>ensureError\<close> returns it as it is.
\<close>

definition parsePipeline :: "compare \<Rightarrow> string \<Rightarrow> bool \<Rightarrow> js_error + (lines \<Rightarrow> outcome)" where
  "parsePipeline collator text check =
     (case map_try (parsePipe collator) (stage_texts text) of
        Inl e \<Rightarrow> Inl e
      | Inr pipes \<Rightarrow>
          if check \<or> length pipes = 0 then Inr NOOP
          else Inr (\<lambda>lines. reduce pipes lines))"

text \<open>The call site \<^verbatim>\<open>pipe(lines)\<close> of the extension's command.\<close>

definition execute :: "(lines \<Rightarrow> outcome) \<Rightarrow> lines \<Rightarrow> outcome" where
  "execute pipe lines = pipe lines"

subsection \<open>A concrete comparison function\<close>

text \<open>
  Code unit order, as a comparison function: negative, zero or positive. It stands in
  for \<^verbatim>\<open>collator.compare\<close> wherever a closed statement needs a concrete one.
\<close>

definition codeunit_compare :: compare where
  "codeunit_compare a b = (if a < b then - 1 else if b < a then 1 else 0)"

subsection \<open>Notions the properties are stated with\<close>

text \<open>
  A consistent comparator in the sense of ECMA-262: the signs of \<open>comparator a b\<close> and
  \<open>comparator b a\<close> are opposite, and "not after" is transitive. A collator's
  comparison is one.
\<close>

definition consistent_comparator :: "compare \<Rightarrow> bool" where
  "consistent_comparator comparator \<longleftrightarrow>
     (\<forall>a b. (comparator a b < 0) = (0 < comparator b a)) \<and>
     (\<forall>a b c. comparator a b \<le> 0 \<and> comparator b c \<le> 0 \<longrightarrow> comparator a c \<le> 0)"

text \<open>
  The distinct elements of a list in the order of their first occurrence, later
  duplicates dropped: what the specification asks of \<^verbatim>\<open>uniq\<close>.
\<close>

definition first_occurrences :: "'a list \<Rightarrow> 'a list" where
  "first_occurrences xs = rev (remdups (rev xs))"

text \<open>
  Feeding the result of the earlier stages to the next stage: an exception stays, a line
  sequence becomes the input of the stage. The left-to-right composition of the
  specification is the \<open>foldl\<close> of this step, started with the input lines.
\<close>

fun then_stage :: "outcome \<Rightarrow> js_value \<Rightarrow> outcome" where
  "then_stage (Inl e, fx) stage = (Inl e, fx)"
| "then_stage (Inr out, fx) stage = (case call stage out of (r, fx') \<Rightarrow> (r, fx @ fx'))"

text \<open>The own keys of \<^verbatim>\<open>PIPES\<close>, and the names it inherits.\<close>

definition registry_keys :: "string list" where
  "registry_keys = [''help'', ''sort'', ''uniq'']"

definition inherited_names :: "string list" where
  "inherited_names =
     [''constructor'', ''toString'', ''hasOwnProperty'', ''isPrototypeOf'',
      ''propertyIsEnumerable'', ''toLocaleString'', ''valueOf'', ''__defineGetter__'',
      ''__defineSetter__'', ''__lookupGetter__'', ''__lookupSetter__'', ''__proto__'']"

text \<open>The argument lists \<^verbatim>\<open>sort\<close> matches.\<close>

definition sort_arguments :: "string list list" where
  "sort_arguments = [[], [''asc''], [''-d''], [''desc'']]"

section \<open>Auxiliary facts\<close>

subsection \<open>Splitting and trimming\<close>

lemma split_on_not_Nil: "split_on sep s \<noteq> []"
  by (induction s) (auto split: list.splits)

lemma split_ws_not_Nil: "split_ws s \<noteq> []"
  by (induction s rule: split_ws.induct) (auto split: list.splits)

lemma split_on_no_separator: "sep \<notin> set s \<Longrightarrow> split_on sep s = [s]"
  by (induction s) auto

lemma bar_not_white_space: "is_white_space c \<Longrightarrow> c \<noteq> CHR ''|''"
  by (auto simp: is_white_space_def)

lemma dropWhile_all: "list_all P xs \<Longrightarrow> dropWhile P xs = []"
  by (induction xs) auto

lemma trim_white_space: "list_all is_white_space s \<Longrightarrow> trim s = []"
  by (simp add: trim_def dropWhile_all)

lemma stage_texts_not_Nil: "stage_texts text \<noteq> []"
  by (simp add: stage_texts_def split_on_not_Nil)

subsection \<open>The loop over the stages\<close>

lemma map_try_Inr_iff: "map_try f xs = Inr ys \<longleftrightarrow> map f xs = map Inr ys"
proof (induction xs arbitrary: ys)
  case Nil
  then show ?case by auto
next
  case (Cons x xs)
  then show ?case
    by (cases ys) (auto simp: Cons.IH [symmetric] split: sum.splits)
qed

lemma map_try_length: "map_try f xs = Inr ys \<Longrightarrow> length ys = length xs"
  by (metis length_map map_try_Inr_iff)

lemma map_try_first_failure:
  assumes "\<forall>t\<in>set pre. \<exists>p. f t = Inr p" and "f s = Inl e"
  shows "map_try f (pre @ s # post) = Inl e"
  using assms by (induction pre) (auto split: sum.splits)

subsection \<open>The empty stage\<close>

lemma pipeName_empty: "pipeName [] = []"
  by (simp add: pipeName_def tokens_def trim_def)

lemma PIPES_empty: "PIPES c [] = Undefined"
  by (simp add: PIPES_def Object_prototype_def)

lemma parsePipe_empty: "parsePipe c [] = Inl (Error ''Unknown command: '')"
  by (simp add: parsePipe_def pipeName_empty PIPES_empty)

subsection \<open>Sorting\<close>

lemma mset_insert_by: "mset (insert_by c x xs) = add_mset x (mset xs)"
  by (induction xs) auto

lemma mset_toSorted: "mset (toSorted c xs) = mset xs"
  by (induction xs) (auto simp: toSorted_def mset_insert_by)

lemma set_insert_by: "set (insert_by c x xs) = insert x (set xs)"
  by (induction xs) auto

lemma sorted_insert_by:
  assumes total: "\<And>a b. \<not> c a b \<le> 0 \<Longrightarrow> c b a \<le> 0"
    and trans: "\<And>a b d. c a b \<le> 0 \<Longrightarrow> c b d \<le> 0 \<Longrightarrow> c a d \<le> 0"
    and sorted: "sorted_wrt (\<lambda>a b. c a b \<le> 0) xs"
  shows "sorted_wrt (\<lambda>a b. c a b \<le> 0) (insert_by c x xs)"
  using sorted
proof (induction xs)
  case Nil
  then show ?case by simp
next
  case (Cons y ys)
  show ?case
  proof (cases "c x y \<le> 0")
    case True
    then have "\<forall>z\<in>set ys. c x z \<le> 0"
      using Cons.prems trans by auto
    with True Cons.prems show ?thesis by simp
  next
    case False
    then have "c y x \<le> 0" by (rule total)
    with False Cons show ?thesis
      by (auto simp: set_insert_by)
  qed
qed

lemma consistent_total: "consistent_comparator c \<Longrightarrow> \<not> c a b \<le> 0 \<Longrightarrow> c b a \<le> 0"
  unfolding consistent_comparator_def by (metis not_less order_less_imp_le)

lemma consistent_trans:
  "consistent_comparator c \<Longrightarrow> c a b \<le> 0 \<Longrightarrow> c b d \<le> 0 \<Longrightarrow> c a d \<le> 0"
  unfolding consistent_comparator_def by blast

lemma consistent_flip: "consistent_comparator c \<Longrightarrow> 0 \<le> c a b \<longleftrightarrow> c b a \<le> 0"
  unfolding consistent_comparator_def by (metis not_less)

lemma sorted_toSorted:
  assumes "consistent_comparator c"
  shows "sorted_wrt (\<lambda>a b. c a b \<le> 0) (toSorted c xs)"
proof (induction xs)
  case Nil
  then show ?case by (simp add: toSorted_def)
next
  case (Cons x xs)
  have step: "toSorted c (x # xs) = insert_by c x (toSorted c xs)"
    by (simp add: toSorted_def)
  have "sorted_wrt (\<lambda>a b. c a b \<le> 0) (insert_by c x (toSorted c xs))"
  proof (rule sorted_insert_by)
    show "\<And>a b. \<not> c a b \<le> 0 \<Longrightarrow> c b a \<le> 0"
      by (rule consistent_total [OF assms])
    show "\<And>a b d. c a b \<le> 0 \<Longrightarrow> c b d \<le> 0 \<Longrightarrow> c a d \<le> 0"
      by (rule consistent_trans [OF assms])
    show "sorted_wrt (\<lambda>a b. c a b \<le> 0) (toSorted c xs)"
      by (rule Cons.IH)
  qed
  then show ?case
    by (simp only: step)
qed

lemma consistent_negate:
  assumes "consistent_comparator c"
  shows "consistent_comparator (\<lambda>a b. - c a b)"
  unfolding consistent_comparator_def
proof (intro conjI allI impI)
  fix a b
  show "(- c a b < 0) = (0 < - c b a)"
    using assms unfolding consistent_comparator_def by simp
next
  fix a b d
  assume "- c a b \<le> 0 \<and> - c b d \<le> 0"
  then have "c b a \<le> 0" and "c d b \<le> 0"
    using consistent_flip [OF assms] by simp_all
  then have "c d a \<le> 0"
    by (rule consistent_trans [OF assms, rotated])
  then show "- c a d \<le> 0"
    using consistent_flip [OF assms, of a d] by simp
qed

lemma toSorted_sorted_permutation:
  assumes "consistent_comparator c"
  shows "mset (toSorted c L) = mset L \<and> sorted_wrt (\<lambda>a b. c a b \<le> 0) (toSorted c L)"
  by (simp add: mset_toSorted sorted_toSorted [OF assms])

lemma codeunit_compare_consistent: "consistent_comparator codeunit_compare"
  unfolding consistent_comparator_def codeunit_compare_def
  by (auto split: if_splits)

subsection \<open>Resolving and composing stages\<close>

text \<open>The definitions that evaluate a parse of a concrete text.\<close>

lemmas parse_eval =
  parsePipeline_def stage_texts_def trim_def parsePipe_def pipeName_def pipeArgs_def
  tokens_def PIPES_def Object_prototype_def is_white_space_def sort_factory_def uniq_def
  help_factory_def

lemma foldl_then_stage_Inl: "foldl then_stage (Inl e, fx) stages = (Inl e, fx)"
  by (induction stages) auto

lemma reduce_foldl_effects:
  "foldl then_stage (Inr inp, fx) stages =
     (case reduce stages inp of (r, fx') \<Rightarrow> (r, fx @ fx'))"
proof (induction stages arbitrary: inp fx)
  case Nil
  then show ?case by simp
next
  case (Cons s stages)
  obtain r fx1 where s: "call s inp = (r, fx1)"
    by (cases "call s inp")
  show ?case
  proof (cases r)
    case (Inl e)
    with s show ?thesis
      by (simp add: foldl_then_stage_Inl)
  next
    case (Inr out)
    with s Cons.IH [of out "fx @ fx1"] show ?thesis
      by (simp split: prod.splits)
  qed
qed

lemma reduce_eq_foldl: "reduce stages L = foldl then_stage (Inr L, []) stages"
  by (simp add: reduce_foldl_effects)

lemma map_try_some_failure:
  "s \<in> set xs \<Longrightarrow> f s = Inl e \<Longrightarrow> \<exists>e'. map_try f xs = Inl e'"
  by (induction xs) (auto split: sum.splits)

lemma PIPES_Undefined_iff:
  "PIPES c name = Undefined \<longleftrightarrow> name \<notin> set registry_keys \<and> name \<notin> set inherited_names"
  by (simp add: PIPES_def Object_prototype_def registry_keys_def inherited_names_def)

lemma parsePipe_unknown:
  "name \<notin> set registry_keys \<Longrightarrow> name \<notin> set inherited_names \<Longrightarrow> pipeName s = name \<Longrightarrow>
   parsePipe c s = Inl (Error (''Unknown command: '' @ name))"
  using PIPES_Undefined_iff [of c name] by (simp add: parsePipe_def)

lemma sort_factory_Inr_iff:
  "(\<exists>p. sort_factory c args = Inr p) \<longleftrightarrow> args \<in> set sort_arguments"
  by (auto simp: sort_factory_def sort_arguments_def)

lemma sort_factory_rejects:
  "args \<notin> set sort_arguments \<Longrightarrow> sort_factory c args = Inl (Error ''Invalid arguments'')"
  by (auto simp: sort_factory_def sort_arguments_def)

lemma parsePipe_sort:
  "pipeName s = ''sort'' \<Longrightarrow> parsePipe c s = sort_factory c (pipeArgs s)"
  by (simp add: parsePipe_def PIPES_def)

lemma parsePipeline_first_failure:
  assumes "stage_texts text = pre @ s # post"
    and "\<forall>t\<in>set pre. \<exists>p. parsePipe c t = Inr p"
    and "parsePipe c s = Inl e"
  shows "parsePipeline c text check = Inl e"
  using map_try_first_failure [of pre "parsePipe c" s e post] assms
  by (simp add: parsePipeline_def)

subsection \<open>Pipe characters and empty stages\<close>

lemma split_on_append:
  "split_on sep (a @ sep # b) = split_on sep a @ split_on sep b"
proof (induction a)
  case Nil
  then show ?case by simp
next
  case (Cons x a)
  obtain t ts where "split_on sep a = t # ts"
    using split_on_not_Nil [of sep a] by (cases "split_on sep a") auto
  with Cons show ?case by simp
qed

lemma stage_texts_bar: "stage_texts (a @ ''|'' @ b) = stage_texts a @ stage_texts b"
  by (simp add: stage_texts_def split_on_append)

lemma stage_texts_no_bar: "CHR ''|'' \<notin> set m \<Longrightarrow> stage_texts m = [trim m]"
  by (simp add: stage_texts_def split_on_no_separator)

lemma stage_texts_blank: "list_all is_white_space ws \<Longrightarrow> stage_texts ws = [[]]"
proof -
  assume blank: "list_all is_white_space ws"
  then have "CHR ''|'' \<notin> set ws"
    by (auto simp: list_all_iff dest: bar_not_white_space)
  then show ?thesis
    using blank by (simp add: stage_texts_no_bar trim_white_space)
qed

lemma map_try_all_parse:
  "map_try f xs = Inr ys \<Longrightarrow> \<forall>x\<in>set xs. \<exists>y. f x = Inr y"
proof (induction xs arbitrary: ys)
  case Nil
  then show ?case by simp
next
  case (Cons x xs)
  then show ?case
    by (auto split: sum.splits)
qed

lemma parsed_prefix_stages:
  "parsePipeline c a k = Inr p \<Longrightarrow> \<forall>t\<in>set (stage_texts a). \<exists>q. parsePipe c t = Inr q"
proof -
  assume "parsePipeline c a k = Inr p"
  then obtain stages where "map_try (parsePipe c) (stage_texts a) = Inr stages"
    by (auto simp: parsePipeline_def split: sum.splits)
  then show ?thesis
    by (rule map_try_all_parse)
qed

lemma leading_bar_empty_stage:
  assumes "list_all is_white_space ws"
  shows "parsePipeline c (ws @ ''|'' @ b) check = Inl (Error ''Unknown command: '')"
proof -
  have "stage_texts (ws @ ''|'' @ b) = [] @ [] # stage_texts b"
    using stage_texts_bar [of ws b] stage_texts_blank [OF assms] by simp
  then show ?thesis
    by (rule parsePipeline_first_failure) (simp_all add: parsePipe_empty)
qed

lemma trailing_bar_empty_stage:
  assumes "list_all is_white_space ws" and "parsePipeline c a k = Inr p"
  shows "parsePipeline c (a @ ''|'' @ ws) check = Inl (Error ''Unknown command: '')"
proof -
  have "stage_texts (a @ ''|'' @ ws) = stage_texts a @ [] # []"
    using stage_texts_bar [of a ws] stage_texts_blank [OF assms(1)] by simp
  then show ?thesis
    using parsed_prefix_stages [OF assms(2)] parsePipe_empty [of c]
    by (rule parsePipeline_first_failure)
qed

lemma doubled_bar_empty_stage:
  assumes "list_all is_white_space ws" and "parsePipeline c a k = Inr p"
  shows "parsePipeline c (a @ ''|'' @ ws @ ''|'' @ b) check = Inl (Error ''Unknown command: '')"
proof -
  have "stage_texts (ws @ ''|'' @ b) = [] # stage_texts b"
    using stage_texts_bar [of ws b] stage_texts_blank [OF assms(1)] by simp
  then have "stage_texts (a @ ''|'' @ ws @ ''|'' @ b) = stage_texts a @ [] # stage_texts b"
    using stage_texts_bar [of a "ws @ ''|'' @ b"] by simp
  then show ?thesis
    using parsed_prefix_stages [OF assms(2)] parsePipe_empty [of c]
    by (rule parsePipeline_first_failure)
qed

lemma empty_stage_never_parses:
  assumes "[] \<in> set (stage_texts text)"
  shows "\<exists>e. parsePipeline c text check = Inl e"
proof -
  obtain e where "map_try (parsePipe c) (stage_texts text) = Inl e"
    using assms parsePipe_empty [of c]
      map_try_some_failure [of "[]" "stage_texts text" "parsePipe c"] by blast
  then show ?thesis
    by (simp add: parsePipeline_def)
qed

lemma bar_then_blank_never_parses:
  assumes "list_all is_white_space ws"
  shows "\<exists>e. parsePipeline c (a @ ''|'' @ ws) check = Inl e"
    and "\<exists>e. parsePipeline c (a @ ''|'' @ ws @ ''|'' @ b) check = Inl e"
proof -
  have blank: "stage_texts ws = [[]]"
    by (rule stage_texts_blank [OF assms])
  have "stage_texts (a @ ''|'' @ ws) = stage_texts a @ [[]]"
    using stage_texts_bar [of a ws] blank by simp
  then have "[] \<in> set (stage_texts (a @ ''|'' @ ws))"
    by simp
  then show "\<exists>e. parsePipeline c (a @ ''|'' @ ws) check = Inl e"
    by (rule empty_stage_never_parses)
  have "stage_texts (a @ ''|'' @ ws @ ''|'' @ b) = stage_texts a @ [] # stage_texts b"
    using stage_texts_bar [of a "ws @ ''|'' @ b"] stage_texts_bar [of ws b] blank by simp
  then have "[] \<in> set (stage_texts (a @ ''|'' @ ws @ ''|'' @ b))"
    by simp
  then show "\<exists>e. parsePipeline c (a @ ''|'' @ ws @ ''|'' @ b) check = Inl e"
    by (rule empty_stage_never_parses)
qed

subsection \<open>What \<^verbatim>\<open>uniq\<close> does compute\<close>

lemmas uniq_eval =
  uniq_lines_def set_property_def Object_keys_def is_array_index_def is_digit_def
  decimal_value_def

lemma first_occurrences_snoc:
  "first_occurrences (xs @ [x]) =
     (if x \<in> set xs then first_occurrences xs else first_occurrences xs @ [x])"
  by (simp add: first_occurrences_def)

lemma set_foldl_set_property:
  "set (foldl set_property acc L) = set acc \<union> (set L - {''__proto__''})"
  by (induction L arbitrary: acc) (auto simp: set_property_def)

lemma distinct_foldl_set_property:
  "distinct acc \<Longrightarrow> distinct (foldl set_property acc L)"
  by (induction L arbitrary: acc) (auto simp: set_property_def)

lemma foldl_set_property_first_occurrences:
  "foldl set_property [] L = first_occurrences (filter (\<lambda>l. l \<noteq> ''__proto__'') L)"
proof (induction L rule: rev_induct)
  case Nil
  then show ?case by (simp add: first_occurrences_def)
next
  case (snoc x xs)
  have keys: "set (foldl set_property [] xs) = set xs - {''__proto__''}"
    by (simp add: set_foldl_set_property)
  show ?case
  proof (cases "x = ''__proto__''")
    case True
    with snoc show ?thesis by (simp add: set_property_def)
  next
    case False
    have "foldl set_property [] (xs @ [x]) = set_property (foldl set_property [] xs) x"
      by simp
    also have "\<dots> = (if x \<in> set xs then foldl set_property [] xs
                      else foldl set_property [] xs @ [x])"
      using False by (simp add: set_property_def keys)
    also have "\<dots> = first_occurrences (filter (\<lambda>l. l \<noteq> ''__proto__'') xs @ [x])"
      using False by (simp add: first_occurrences_snoc snoc.IH)
    finally show ?thesis
      using False by simp
  qed
qed

lemma set_Object_keys: "set (Object_keys obj) = set obj"
  by (auto simp: Object_keys_def)

lemma distinct_Object_keys: "distinct obj \<Longrightarrow> distinct (Object_keys obj)"
  by (auto simp: Object_keys_def)

lemma Object_keys_no_index:
  assumes "\<forall>k\<in>set obj. \<not> is_array_index k"
  shows "Object_keys obj = obj"
proof -
  have "filter is_array_index obj = []"
    using assms by (simp add: filter_empty_conv)
  moreover have "filter (\<lambda>k. \<not> is_array_index k) obj = obj"
    using assms by (simp add: filter_id_conv)
  ultimately show ?thesis
    by (simp add: Object_keys_def)
qed

lemma uniq_lines_distinct: "distinct (uniq_lines L)"
  by (simp add: uniq_lines_def distinct_Object_keys distinct_foldl_set_property)

lemma set_uniq_lines: "set (uniq_lines L) = set L - {''__proto__''}"
  by (simp add: uniq_lines_def set_Object_keys set_foldl_set_property)

lemma uniq_lines_example:
  "uniq_lines [''b'', ''1'', ''__proto__'', ''b'', ''10'', ''9'', ''01'', ''4294967295'',
               ''4294967294'', ''0''] =
   [''0'', ''1'', ''9'', ''10'', ''4294967294'', ''b'', ''01'', ''4294967295'']"
  by (simp add: uniq_eval)

lemma uniq_lines_first_occurrences:
  assumes "\<forall>l\<in>set L. \<not> is_array_index l \<and> l \<noteq> ''__proto__''"
  shows "uniq_lines L = first_occurrences L"
proof -
  have "filter (\<lambda>l. l \<noteq> ''__proto__'') L = L"
    using assms by (simp add: filter_id_conv)
  then have acc: "foldl set_property [] L = first_occurrences L"
    by (simp add: foldl_set_property_first_occurrences)
  have "\<forall>k\<in>set (first_occurrences L). \<not> is_array_index k"
    using assms by (simp add: first_occurrences_def)
  then show ?thesis
    by (simp add: uniq_lines_def acc Object_keys_no_index)
qed

subsection \<open>Stages of the table's own keys return\<close>

lemma help_factory_returns:
  "help_factory args = Inr p \<Longrightarrow> \<exists>out fx. call p L = (Inr out, fx)"
  by (auto simp: help_factory_def)

lemma sort_factory_returns:
  "sort_factory c args = Inr p \<Longrightarrow> \<exists>out fx. call p L = (Inr out, fx)"
  by (auto simp: sort_factory_def split: if_splits)

lemma uniq_returns:
  "uniq args = Inr p \<Longrightarrow> \<exists>out fx. call p L = (Inr out, fx)"
  by (auto simp: uniq_def split: if_splits)

lemma registry_stage_returns:
  assumes "pipeName t \<in> set registry_keys" and "parsePipe c t = Inr p"
  shows "\<exists>out fx. call p L = (Inr out, fx)"
proof -
  consider "pipeName t = ''help''" | "pipeName t = ''sort''" | "pipeName t = ''uniq''"
    using assms(1) by (auto simp: registry_keys_def)
  then show ?thesis
  proof cases
    case 1
    then have "help_factory (pipeArgs t) = Inr p"
      using assms(2) by (simp add: parsePipe_def PIPES_def)
    then show ?thesis by (rule help_factory_returns)
  next
    case 2
    then have "sort_factory c (pipeArgs t) = Inr p"
      using assms(2) by (simp add: parsePipe_def PIPES_def)
    then show ?thesis by (rule sort_factory_returns)
  next
    case 3
    then have "uniq (pipeArgs t) = Inr p"
      using assms(2) by (simp add: parsePipe_def PIPES_def)
    then show ?thesis by (rule uniq_returns)
  qed
qed

lemma reduce_returns:
  assumes "\<forall>p\<in>set stages. \<forall>L. \<exists>out fx. call p L = (Inr out, fx)"
  shows "\<exists>out fx. reduce stages L = (Inr out, fx)"
  using assms
proof (induction stages arbitrary: L)
  case Nil
  then show ?case by simp
next
  case (Cons p stages)
  then obtain out fx where p: "call p L = (Inr out, fx)"
    by fastforce
  obtain out' fx' where "reduce stages out = (Inr out', fx')"
    using Cons.IH [of out] Cons.prems by auto
  with p show ?case by simp
qed

lemma map_try_pointwise:
  "map_try f xs = Inr ys \<Longrightarrow> y \<in> set ys \<Longrightarrow> \<exists>x\<in>set xs. f x = Inr y"
proof (induction xs arbitrary: ys)
  case Nil
  then show ?case by simp
next
  case (Cons x xs)
  then show ?case
    by (auto split: sum.splits)
qed

lemma registry_pipeline_never_raises:
  assumes "\<forall>t\<in>set (stage_texts text). pipeName t \<in> set registry_keys"
    and "parsePipeline c text check = Inr p"
  shows "\<exists>out fx. execute p L = (Inr out, fx)"
proof -
  obtain stages where st: "map_try (parsePipe c) (stage_texts text) = Inr stages"
    using assms(2) by (auto simp: parsePipeline_def split: sum.splits)
  have "\<forall>q\<in>set stages. \<forall>L. \<exists>out fx. call q L = (Inr out, fx)"
    using map_try_pointwise [OF st] assms(1) registry_stage_returns by blast
  then have "\<exists>out fx. reduce stages L = (Inr out, fx)"
    by (rule reduce_returns)
  then show ?thesis
    using assms(2) st by (auto simp: parsePipeline_def execute_def NOOP_def split: if_splits)
qed

section \<open>The properties\<close>

text \<open>
  Closed instances below use \<open>codeunit_compare\<close> for the collator's comparison.
\<close>

subsection \<open>C1: what \<^verbatim>\<open>uniq\<close> returns\<close>

text \<open>
  C1. The specification says that the \<^verbatim>\<open>uniq\<close> stage returns the distinct lines in
  the order of their first occurrence. The code does not for lines that are array
  indices, which \<^verbatim>\<open>Object.keys\<close> lists first and in numeric order, nor for the line
  \<^verbatim>\<open>__proto__\<close>, which never becomes a key: \<^verbatim>\<open>["b","1"]\<close> comes back as
  \<^verbatim>\<open>["1","b"]\<close>, and \<^verbatim>\<open>["__proto__"]\<close> comes back empty. (The output never
  repeats a line and never holds a line that is not in the input: \<open>uniq_lines_distinct\<close>,
  \<open>set_uniq_lines\<close>; without such lines in the input it is the first-occurrence
  sequence: \<open>uniq_lines_first_occurrences\<close>.)
\<close>

theorem uniq_loses_first_occurrence_order:
  "\<exists>p. uniq [] = Inr p \<and>
       call p [''b'', ''1''] = (Inr [''1'', ''b''], []) \<and>
       first_occurrences [''b'', ''1''] = [''b'', ''1''] \<and>
       call p [''__proto__''] = (Inr [], []) \<and>
       first_occurrences [''__proto__''] = [''__proto__'']"
  by (simp add: uniq_def uniq_eval first_occurrences_def)

subsection \<open>C2: empty and blank pipeline text\<close>

text \<open>
  C2. The specification says that empty or blank pipeline text parses to the identity
  pipeline with no error. The code does not: \<^verbatim>\<open>split('|')\<close> gives one empty piece, its
  command name is the empty string, and the lookup fails. For every blank text, the
  empty one included, and for both values of the check flag, the parse returns the
  error \<^verbatim>\<open>Unknown command: \<close> and no pipeline; the test \<^verbatim>\<open>pipes.length === 0\<close> is never
  reached with an empty array.
\<close>

theorem parse_blank_text_is_error:
  "list_all is_white_space text \<Longrightarrow>
   parsePipeline c text check = Inl (Error ''Unknown command: '')"
proof -
  assume blank: "list_all is_white_space text"
  then have "CHR ''|'' \<notin> set text"
    by (auto simp: list_all_iff dest: bar_not_white_space)
  then have "stage_texts text = [[]]"
    using blank by (simp add: stage_texts_def split_on_no_separator trim_white_space)
  then show ?thesis
    by (simp add: parsePipeline_def parsePipe_empty)
qed

text \<open>C2 at the text of one space.\<close>

theorem parse_blank_text_is_error_witness:
  "list_all is_white_space '' '' \<and>
   parsePipeline codeunit_compare '' '' False = Inl (Error ''Unknown command: '')"
proof -
  have blank: "list_all is_white_space '' ''"
    by (simp add: is_white_space_def)
  show ?thesis
    using blank parse_blank_text_is_error [OF blank, of codeunit_compare False] by simp
qed

subsection \<open>C3: the \<^verbatim>\<open>sort\<close> stage\<close>

text \<open>
  C3. Let the collator's comparison be a consistent comparator. For the argument lists
  \<^verbatim>\<open>[]\<close> and \<^verbatim>\<open>['asc']\<close> the \<^verbatim>\<open>sort\<close> factory builds a stage whose output, on
  every line sequence, is a permutation of the input in which no line comes after a
  later one under the comparison; for \<^verbatim>\<open>['-d']\<close> and \<^verbatim>\<open>['desc']\<close> the output is a
  permutation in which no line comes before a later one.
\<close>

theorem sort_stage_sorted_permutation:
  assumes "consistent_comparator c"
  shows "(args = [] \<or> args = [''asc''] \<longrightarrow>
           (\<exists>p. sort_factory c args = Inr p \<and>
                (\<forall>L. \<exists>out. call p L = (Inr out, []) \<and> mset out = mset L \<and>
                           sorted_wrt (\<lambda>a b. c a b \<le> 0) out))) \<and>
         (args = [''-d''] \<or> args = [''desc''] \<longrightarrow>
           (\<exists>p. sort_factory c args = Inr p \<and>
                (\<forall>L. \<exists>out. call p L = (Inr out, []) \<and> mset out = mset L \<and>
                           sorted_wrt (\<lambda>a b. 0 \<le> c a b) out)))"
proof -
  have asc: "\<And>L. mset (toSorted c L) = mset L \<and> sorted_wrt (\<lambda>a b. c a b \<le> 0) (toSorted c L)"
    using toSorted_sorted_permutation [OF assms] by simp
  have desc: "\<And>L. mset (toSorted (\<lambda>a b. - c a b) L) = mset L \<and>
                  sorted_wrt (\<lambda>a b. 0 \<le> c a b) (toSorted (\<lambda>a b. - c a b) L)"
    using toSorted_sorted_permutation [OF consistent_negate [OF assms]] by simp
  show ?thesis
    by (simp add: sort_factory_def asc desc)
qed

text \<open>C3 at the code unit order, for no argument and for \<^verbatim>\<open>desc\<close>.\<close>

theorem sort_stage_sorted_permutation_witness:
  "consistent_comparator codeunit_compare \<and>
   (\<exists>p. sort_factory codeunit_compare [] = Inr p \<and>
        (\<forall>L. \<exists>out. call p L = (Inr out, []) \<and> mset out = mset L \<and>
                   sorted_wrt (\<lambda>a b. codeunit_compare a b \<le> 0) out)) \<and>
   (\<exists>p. sort_factory codeunit_compare [''desc''] = Inr p \<and>
        (\<forall>L. \<exists>out. call p L = (Inr out, []) \<and> mset out = mset L \<and>
                   sorted_wrt (\<lambda>a b. 0 \<le> codeunit_compare a b) out))"
  using codeunit_compare_consistent
    sort_stage_sorted_permutation [OF codeunit_compare_consistent, of "[]"]
    sort_stage_sorted_permutation [OF codeunit_compare_consistent, of "[''desc'']"]
  by simp

subsection \<open>C4: the check flag\<close>

text \<open>
  C4. Whenever the text parses, the parse with the check flag returns \<open>NOOP\<close>, which
  hands any line sequence back unchanged and requests no effect; whenever the text does
  not parse, the parse with the check flag returns the same error.
\<close>

theorem check_mode_returns_NOOP:
  "(parsePipeline c text False = Inr p \<longrightarrow>
      parsePipeline c text True = Inr NOOP \<and> execute NOOP L = (Inr L, [])) \<and>
   (parsePipeline c text False = Inl e \<longrightarrow> parsePipeline c text True = Inl e)"
  by (auto simp: parsePipeline_def execute_def NOOP_def split: sum.splits)

text \<open>
  C4 at concrete texts: \<^verbatim>\<open>sort desc | help\<close> parses and its check-mode parse is
  \<open>NOOP\<close>; \<^verbatim>\<open>uniq extra\<close> fails in both modes with the same error.
\<close>

theorem check_mode_returns_NOOP_witness:
  "(\<exists>p. parsePipeline codeunit_compare ''sort desc | help'' False = Inr p) \<and>
   parsePipeline codeunit_compare ''sort desc | help'' True = Inr NOOP \<and>
   execute NOOP [''b'', ''a''] = (Inr [''b'', ''a''], []) \<and>
   parsePipeline codeunit_compare ''uniq extra'' False = Inl (Error ''Invalid arguments'') \<and>
   parsePipeline codeunit_compare ''uniq extra'' True = Inl (Error ''Invalid arguments'')"
proof -
  obtain p where p: "parsePipeline codeunit_compare ''sort desc | help'' False = Inr p"
    by (simp add: parse_eval)
  have e: "parsePipeline codeunit_compare ''uniq extra'' False = Inl (Error ''Invalid arguments'')"
    by (simp add: parse_eval)
  show ?thesis
    using p e
      check_mode_returns_NOOP [of codeunit_compare "''sort desc | help''" p "[''b'', ''a'']"]
      check_mode_returns_NOOP [of codeunit_compare "''uniq extra''" _ _ "Error ''Invalid arguments''"]
    by blast
qed

subsection \<open>C5: unknown commands\<close>

text \<open>
  C5. As stated the claim fails: a stage with an unknown name that stands after a stage
  with invalid arguments is not reported, because the earlier failure ends the parse.
  In \<^verbatim>\<open>sort -x | foo\<close> the name \<^verbatim>\<open>foo\<close> is not a key of the table, and the parse
  returns \<^verbatim>\<open>Invalid arguments\<close>.
\<close>

theorem unknown_name_after_failed_stage_counterexample:
  "stage_texts ''sort -x | foo'' = [''sort -x'', ''foo''] \<and>
   pipeName ''foo'' = ''foo'' \<and> ''foo'' \<notin> set registry_keys \<and>
   parsePipeline codeunit_compare ''sort -x | foo'' False = Inl (Error ''Invalid arguments'') \<and>
   parsePipeline codeunit_compare ''sort -x | foo'' False \<noteq> Inl (Error ''Unknown command: foo'')"
  by (simp add: parse_eval registry_keys_def)

text \<open>
  C5, amended. Let every stage before the stage \<open>s\<close> parse, and let the command name
  of \<open>s\<close> be neither an own key of the table nor a name the table inherits from
  \<^verbatim>\<open>Object.prototype\<close>. Then the parse, with or without the check flag, returns the
  error \<^verbatim>\<open>Unknown command: \<close> followed by that name and no pipeline, whatever the
  stages after \<open>s\<close> are. The stage texts are the trimmed pieces between the pipe
  characters: a pipe character joins the stage texts of what stands before it with
  those of what stands after it, and a text without one is a single stage. So a blank
  piece \<open>ws\<close> (empty, or white space only) is an empty stage text, whose command name
  is the empty string, and the empty string is such a name. With a leading pipe
  (\<open>ws | b\<close>) the parse returns \<^verbatim>\<open>Unknown command: \<close> with the empty name; with a
  trailing pipe (\<open>a | ws\<close>) or a doubled pipe (\<open>a | ws | b\<close>) it returns some error
  and no pipeline, and that error is \<^verbatim>\<open>Unknown command: \<close> with the empty name
  whenever \<open>a\<close> parses.
\<close>

theorem first_unknown_stage_is_reported:
  "(stage_texts text = pre @ s # post \<and> (\<forall>t\<in>set pre. \<exists>p. parsePipe c t = Inr p) \<and>
    pipeName s \<notin> set registry_keys \<and> pipeName s \<notin> set inherited_names \<longrightarrow>
      parsePipeline c text check = Inl (Error (''Unknown command: '' @ pipeName s))) \<and>
   stage_texts (a @ ''|'' @ b) = stage_texts a @ stage_texts b \<and>
   (CHR ''|'' \<notin> set m \<longrightarrow> stage_texts m = [trim m]) \<and>
   (list_all is_white_space ws \<longrightarrow>
      trim ws = [] \<and> pipeName (trim ws) = [] \<and>
      [] \<notin> set registry_keys \<and> [] \<notin> set inherited_names \<and>
      parsePipeline c (ws @ ''|'' @ b) check = Inl (Error ''Unknown command: '') \<and>
      (\<exists>e. parsePipeline c (a @ ''|'' @ ws) check = Inl e) \<and>
      (\<exists>e. parsePipeline c (a @ ''|'' @ ws @ ''|'' @ b) check = Inl e) \<and>
      (parsePipeline c a check' = Inr p \<longrightarrow>
         parsePipeline c (a @ ''|'' @ ws) check = Inl (Error ''Unknown command: '') \<and>
         parsePipeline c (a @ ''|'' @ ws @ ''|'' @ b) check = Inl (Error ''Unknown command: '')))"
proof (intro conjI impI)
  assume h: "stage_texts text = pre @ s # post \<and> (\<forall>t\<in>set pre. \<exists>p. parsePipe c t = Inr p) \<and>
    pipeName s \<notin> set registry_keys \<and> pipeName s \<notin> set inherited_names"
  then have "pipeName s \<notin> set registry_keys" and "pipeName s \<notin> set inherited_names"
    by simp_all
  then have "parsePipe c s = Inl (Error (''Unknown command: '' @ pipeName s))"
    by (simp add: parsePipe_unknown)
  with h show "parsePipeline c text check = Inl (Error (''Unknown command: '' @ pipeName s))"
    using parsePipeline_first_failure [of "text" pre s post c] by blast
next
  show "stage_texts (a @ ''|'' @ b) = stage_texts a @ stage_texts b"
    by (rule stage_texts_bar)
next
  assume "CHR ''|'' \<notin> set m"
  then show "stage_texts m = [trim m]"
    by (rule stage_texts_no_bar)
next
  assume "list_all is_white_space ws"
  then show "trim ws = []"
    by (rule trim_white_space)
next
  assume "list_all is_white_space ws"
  then show "pipeName (trim ws) = []"
    by (simp add: trim_white_space pipeName_empty)
next
  show "[] \<notin> set registry_keys"
    by (simp add: registry_keys_def)
next
  show "[] \<notin> set inherited_names"
    by (simp add: inherited_names_def)
next
  assume "list_all is_white_space ws"
  then show "parsePipeline c (ws @ ''|'' @ b) check = Inl (Error ''Unknown command: '')"
    by (rule leading_bar_empty_stage)
next
  assume "list_all is_white_space ws"
  then show "\<exists>e. parsePipeline c (a @ ''|'' @ ws) check = Inl e"
    by (rule bar_then_blank_never_parses)
next
  assume "list_all is_white_space ws"
  then show "\<exists>e. parsePipeline c (a @ ''|'' @ ws @ ''|'' @ b) check = Inl e"
    by (rule bar_then_blank_never_parses)
next
  assume "list_all is_white_space ws" and "parsePipeline c a check' = Inr p"
  then show "parsePipeline c (a @ ''|'' @ ws) check = Inl (Error ''Unknown command: '')"
    by (rule trailing_bar_empty_stage)
next
  assume "list_all is_white_space ws" and "parsePipeline c a check' = Inr p"
  then show "parsePipeline c (a @ ''|'' @ ws @ ''|'' @ b) check = Inl (Error ''Unknown command: '')"
    by (rule doubled_bar_empty_stage)
qed

text \<open>
  C5, amended, at \<^verbatim>\<open>sort | frobnicate | uniq extra\<close>, where the failing stage after
  the unknown one is not reached, at the leading pipe of \<^verbatim>\<open>| sort\<close>, at the trailing
  pipe of \<^verbatim>\<open>sort | \<close> and at the doubled pipe of \<^verbatim>\<open>sort||uniq\<close>.
\<close>

theorem first_unknown_stage_is_reported_witness:
  "parsePipeline codeunit_compare ''sort | frobnicate | uniq extra'' False =
     Inl (Error ''Unknown command: frobnicate'') \<and>
   stage_texts ''sort | frobnicate | uniq extra'' = [''sort'', ''frobnicate'', ''uniq extra''] \<and>
   parsePipeline codeunit_compare ''| sort'' False = Inl (Error ''Unknown command: '') \<and>
   parsePipeline codeunit_compare ''sort | '' True = Inl (Error ''Unknown command: '') \<and>
   parsePipeline codeunit_compare ''sort||uniq'' False = Inl (Error ''Unknown command: '')"
proof -
  have pre: "\<forall>t\<in>set [''sort'']. \<exists>p. parsePipe codeunit_compare t = Inr p"
    by (simp add: parse_eval)
  have s1: "stage_texts ''sort | frobnicate | uniq extra'' = [''sort''] @ ''frobnicate'' # [''uniq extra'']"
    by (simp add: stage_texts_def trim_def is_white_space_def)
  have n1: "pipeName ''frobnicate'' = ''frobnicate''"
    by (simp add: pipeName_def tokens_def trim_def is_white_space_def)
  have k1: "pipeName ''frobnicate'' \<notin> set registry_keys" "pipeName ''frobnicate'' \<notin> set inherited_names"
    by (simp_all add: n1 registry_keys_def inherited_names_def)
  have general: "parsePipeline codeunit_compare ''sort | frobnicate | uniq extra'' False =
      Inl (Error ''Unknown command: frobnicate'')"
    using s1 pre k1 n1
      first_unknown_stage_is_reported [of "''sort | frobnicate | uniq extra''" "[''sort'']"
        "''frobnicate''" "[''uniq extra'']" codeunit_compare False]
    by simp
  obtain p where p: "parsePipeline codeunit_compare ''sort'' True = Inr p"
    by (simp add: parse_eval)
  have blank0: "list_all is_white_space []" and blank1: "list_all is_white_space '' ''"
    by (simp_all add: is_white_space_def)
  have leading: "parsePipeline codeunit_compare ([] @ ''|'' @ '' sort'') False =
      Inl (Error ''Unknown command: '')"
    using blank0
      first_unknown_stage_is_reported [of _ _ _ _ codeunit_compare False _ "'' sort''" _ "[]"]
    by blast
  have trailing: "parsePipeline codeunit_compare (''sort '' @ ''|'' @ '' '') True =
      Inl (Error ''Unknown command: '')"
  proof -
    obtain q where "parsePipeline codeunit_compare ''sort '' True = Inr q"
      by (simp add: parse_eval)
    then show ?thesis
      using blank1
        first_unknown_stage_is_reported [of _ _ _ _ codeunit_compare True "''sort ''" _ _ "'' ''" True q]
      by blast
  qed
  have doubled: "parsePipeline codeunit_compare (''sort'' @ ''|'' @ [] @ ''|'' @ ''uniq'') False =
      Inl (Error ''Unknown command: '')"
    using blank0 p
      first_unknown_stage_is_reported [of _ _ _ _ codeunit_compare False "''sort''" "''uniq''" _ "[]" True p]
    by blast
  show ?thesis
    using general s1 leading trailing doubled by simp
qed

subsection \<open>C6: the arguments of \<^verbatim>\<open>sort\<close>\<close>

text \<open>
  C6. As stated the claim fails: a pipeline that contains a \<^verbatim>\<open>sort\<close> stage with
  rejected arguments need not return that stage's error. In \<^verbatim>\<open>foo | sort -x\<close> the
  earlier stage fails first and the parse returns \<^verbatim>\<open>Unknown command: foo\<close>.
\<close>

theorem invalid_stage_after_unknown_name_counterexample:
  "''sort -x'' \<in> set (stage_texts ''foo | sort -x'') \<and>
   pipeName ''sort -x'' = ''sort'' \<and> pipeArgs ''sort -x'' = [''-x''] \<and>
   sort_factory codeunit_compare [''-x''] = Inl (Error ''Invalid arguments'') \<and>
   parsePipeline codeunit_compare ''foo | sort -x'' False = Inl (Error ''Unknown command: foo'') \<and>
   parsePipeline codeunit_compare ''foo | sort -x'' False \<noteq> Inl (Error ''Invalid arguments'')"
  by (simp add: parse_eval)

text \<open>
  C6, amended. The \<^verbatim>\<open>sort\<close> factory builds a stage exactly for the argument lists
  \<^verbatim>\<open>[]\<close>, \<^verbatim>\<open>['asc']\<close>, \<^verbatim>\<open>['-d']\<close> and \<^verbatim>\<open>['desc']\<close>, and fails with
  \<^verbatim>\<open>Invalid arguments\<close> for every other list. A pipeline in which such a failing
  \<^verbatim>\<open>sort\<close> stage is the first stage that does not parse returns that error and no
  pipeline; a pipeline that contains such a stage anywhere returns some error and no
  pipeline.
\<close>

theorem sort_factory_accepts_exactly:
  "((\<exists>p. sort_factory c args = Inr p) \<longleftrightarrow> args \<in> set sort_arguments) \<and>
   (args \<notin> set sort_arguments \<longrightarrow> sort_factory c args = Inl (Error ''Invalid arguments'')) \<and>
   (stage_texts text = pre @ s # post \<and> (\<forall>t\<in>set pre. \<exists>p. parsePipe c t = Inr p) \<and>
    pipeName s = ''sort'' \<and> pipeArgs s \<notin> set sort_arguments \<longrightarrow>
      parsePipeline c text check = Inl (Error ''Invalid arguments'')) \<and>
   (s' \<in> set (stage_texts text) \<and> pipeName s' = ''sort'' \<and> pipeArgs s' \<notin> set sort_arguments \<longrightarrow>
      (\<exists>e. parsePipeline c text check = Inl e))"
proof (intro conjI impI)
  show "(\<exists>p. sort_factory c args = Inr p) \<longleftrightarrow> args \<in> set sort_arguments"
    by (rule sort_factory_Inr_iff)
next
  assume "args \<notin> set sort_arguments"
  then show "sort_factory c args = Inl (Error ''Invalid arguments'')"
    by (rule sort_factory_rejects)
next
  assume a: "stage_texts text = pre @ s # post \<and> (\<forall>t\<in>set pre. \<exists>p. parsePipe c t = Inr p) \<and>
    pipeName s = ''sort'' \<and> pipeArgs s \<notin> set sort_arguments"
  then have "parsePipe c s = Inl (Error ''Invalid arguments'')"
    by (simp add: parsePipe_sort sort_factory_rejects)
  with a show "parsePipeline c text check = Inl (Error ''Invalid arguments'')"
    using parsePipeline_first_failure [of "text" pre s post c] by blast
next
  assume a: "s' \<in> set (stage_texts text) \<and> pipeName s' = ''sort'' \<and> pipeArgs s' \<notin> set sort_arguments"
  then have "parsePipe c s' = Inl (Error ''Invalid arguments'')"
    by (simp add: parsePipe_sort sort_factory_rejects)
  with a obtain e where "map_try (parsePipe c) (stage_texts text) = Inl e"
    using map_try_some_failure [of s' "stage_texts text" "parsePipe c"] by blast
  then show "\<exists>e. parsePipeline c text check = Inl e"
    by (simp add: parsePipeline_def)
qed

text \<open>C6, amended, at \<^verbatim>\<open>sort -x\<close> and at \<^verbatim>\<open>foo | sort -x\<close>.\<close>

theorem sort_factory_accepts_exactly_witness:
  "sort_factory codeunit_compare [''-x''] = Inl (Error ''Invalid arguments'') \<and>
   parsePipeline codeunit_compare ''sort -x'' False = Inl (Error ''Invalid arguments'') \<and>
   (\<exists>e. parsePipeline codeunit_compare ''foo | sort -x'' False = Inl e)"
proof -
  have a: "[''-x''] \<notin> set sort_arguments"
    by (simp add: sort_arguments_def)
  have s: "stage_texts ''sort -x'' = [] @ ''sort -x'' # []"
    by (simp add: stage_texts_def trim_def is_white_space_def)
  have n: "pipeName ''sort -x'' = ''sort''" "pipeArgs ''sort -x'' = [''-x'']"
    by (simp_all add: pipeName_def pipeArgs_def tokens_def trim_def is_white_space_def)
  have m: "''sort -x'' \<in> set (stage_texts ''foo | sort -x'')"
    by (simp add: stage_texts_def trim_def is_white_space_def)
  show ?thesis
    using a s n m
      sort_factory_accepts_exactly [of codeunit_compare "[''-x'']" "''sort -x''" "[]" "''sort -x''" "[]" False "''sort -x''"]
      sort_factory_accepts_exactly [of codeunit_compare "[''-x'']" "''foo | sort -x''" "[]" "''sort -x''" "[]" False "''sort -x''"]
    by simp
qed

subsection \<open>C7: execution is composition\<close>

text \<open>
  C7. When the parse without the check flag succeeds, the stages are the results of
  \<^verbatim>\<open>parsePipe\<close> on the stage texts, in order and at least one, and executing the
  returned pipeline on any lines \<open>L\<close> is the left-to-right fold over the stages: each
  stage is called on what the stages before it returned, and what the last one returns
  is the result. In particular, when the collator puts \<^verbatim>\<open>a\<close> before \<^verbatim>\<open>b\<close>, the
  pipeline of \<^verbatim>\<open>uniq | sort\<close> turns \<^verbatim>\<open>["b","a","b"]\<close> into \<^verbatim>\<open>["a","b"]\<close>.
\<close>

theorem pipeline_is_left_to_right_fold:
  "(parsePipeline c text False = Inr p \<longrightarrow>
      (\<exists>stages. stages \<noteq> [] \<and> map (parsePipe c) (stage_texts text) = map Inr stages \<and>
                (\<forall>L. execute p L = foldl then_stage (Inr L, []) stages))) \<and>
   (c ''a'' ''b'' < 0 \<and> 0 < c ''b'' ''a'' \<longrightarrow>
      (\<exists>q. parsePipeline c ''uniq | sort'' False = Inr q \<and>
           execute q [''b'', ''a'', ''b''] = (Inr [''a'', ''b''], [])))"
proof (intro conjI impI)
  assume ok: "parsePipeline c text False = Inr p"
  then obtain stages where st: "map_try (parsePipe c) (stage_texts text) = Inr stages"
    by (auto simp: parsePipeline_def split: sum.splits)
  then have len: "length stages = length (stage_texts text)"
    by (rule map_try_length)
  then have ne: "stages \<noteq> []"
    using stage_texts_not_Nil [of "text"] by auto
  have "p = (\<lambda>lines. reduce stages lines)"
    using ok st ne by (simp add: parsePipeline_def)
  then have "\<forall>L. execute p L = foldl then_stage (Inr L, []) stages"
    by (simp add: execute_def reduce_eq_foldl)
  with st ne show "\<exists>stages. stages \<noteq> [] \<and>
      map (parsePipe c) (stage_texts text) = map Inr stages \<and>
      (\<forall>L. execute p L = foldl then_stage (Inr L, []) stages)"
    by (auto simp: map_try_Inr_iff)
next
  assume "c ''a'' ''b'' < 0 \<and> 0 < c ''b'' ''a''"
  then have "\<not> c ''b'' ''a'' \<le> 0" by simp
  then show "\<exists>q. parsePipeline c ''uniq | sort'' False = Inr q \<and>
           execute q [''b'', ''a'', ''b''] = (Inr [''a'', ''b''], [])"
    by (simp add: parse_eval execute_def uniq_lines_def set_property_def Object_keys_def
        is_array_index_def is_digit_def toSorted_def)
qed

text \<open>C7 at \<^verbatim>\<open>uniq | sort\<close> under the code unit order.\<close>

theorem pipeline_is_left_to_right_fold_witness:
  "\<exists>q stages. parsePipeline codeunit_compare ''uniq | sort'' False = Inr q \<and>
      stages \<noteq> [] \<and>
      map (parsePipe codeunit_compare) (stage_texts ''uniq | sort'') = map Inr stages \<and>
      (\<forall>L. execute q L = foldl then_stage (Inr L, []) stages) \<and>
      execute q [''b'', ''a'', ''b''] = (Inr [''a'', ''b''], [])"
proof -
  have "codeunit_compare ''a'' ''b'' < 0 \<and> 0 < codeunit_compare ''b'' ''a''"
    by (simp add: codeunit_compare_def)
  then obtain q where q: "parsePipeline codeunit_compare ''uniq | sort'' False = Inr q"
      "execute q [''b'', ''a'', ''b''] = (Inr [''a'', ''b''], [])"
    using pipeline_is_left_to_right_fold [of codeunit_compare "''uniq | sort''" NOOP]
    by blast
  then show ?thesis
    using pipeline_is_left_to_right_fold [of codeunit_compare "''uniq | sort''" q]
    by blast
qed

subsection \<open>C8: the \<^verbatim>\<open>help\<close> stage\<close>

text \<open>
  C8. For every argument list the \<^verbatim>\<open>help\<close> factory builds a stage, and the stage
  returns its input lines unchanged; the request to show the help document travels
  beside them.
\<close>

theorem help_stage_returns_input:
  "\<exists>p. help_factory args = Inr p \<and>
       fst (call p L) = Inr L \<and> snd (call p L) = [ShowHelpDocument]"
  by (simp add: help_factory_def)

subsection \<open>C9: failures at execution\<close>

text \<open>
  C9. The specification says that executing a pipeline returned by a successful parse
  never raises. The code does raise: the name \<^verbatim>\<open>constructor\<close> is found through the
  prototype chain of \<^verbatim>\<open>PIPES\<close>, the call \<^verbatim>\<open>Object(args)\<close> returns the argument
  array, the parse succeeds with that array as the only stage, and executing the
  pipeline on any lines calls the array and throws a \<^verbatim>\<open>TypeError\<close>. (A pipeline
  whose stage names are all own keys of the table does not raise:
  \<open>registry_pipeline_never_raises\<close>.)
\<close>

theorem constructor_stage_raises:
  "\<exists>p. parsePipeline c ''constructor'' False = Inr p \<and> execute p L = (Inl TypeError, [])"
  by (simp add: parse_eval execute_def)

subsection \<open>C10: both modes reject the same texts\<close>

text \<open>
  C10. The parse with the check flag fails exactly when the parse without it fails, and
  then with the same error.
\<close>

theorem modes_reject_alike:
  "((\<exists>e. parsePipeline c text True = Inl e) \<longleftrightarrow> (\<exists>e. parsePipeline c text False = Inl e)) \<and>
   (\<forall>e. parsePipeline c text True = Inl e \<longleftrightarrow> parsePipeline c text False = Inl e)"
  by (auto simp: parsePipeline_def split: sum.splits)

text \<open>C10 at the text \<^verbatim>\<open>sort -x\<close>, rejected in both modes with the same error.\<close>

theorem modes_reject_alike_witness:
  "parsePipeline codeunit_compare ''sort -x'' True = Inl (Error ''Invalid arguments'') \<and>
   parsePipeline codeunit_compare ''sort -x'' False = Inl (Error ''Invalid arguments'')"
proof -
  have "parsePipeline codeunit_compare ''sort -x'' False = Inl (Error ''Invalid arguments'')"
    by (simp add: parse_eval)
  then show ?thesis
    using modes_reject_alike [of codeunit_compare "''sort -x''"] by blast
qed

end
